theory Spec2Isabelle
  imports Complex_Main "HOL-Library.Word"
begin

section \<open>Resolution catalog\<close>

text \<open>
  Failures that leave a member function without a result: the two exceptions of
  \<^verbatim>\<open>std::stoi\<close>, and the read through the end iterator that
  \<^verbatim>\<open>NormalizeResolutionValue\<close> performs when no catalog entry is large enough.
\<close>

datatype failure = InvalidArgument | OutOfRange | DerefEnd

text \<open>\<^verbatim>\<open>const std::vector<int> resolution_values_ {1080,1920,2160,3480};\<close>\<close>

definition resolution_values :: "int list" where
  "resolution_values = [1080, 1920, 2160, 3480]"

text \<open>
  \<^verbatim>\<open>std::lower_bound(first, last, value)\<close> on a sorted range: the position of the
  first element that is not less than the value, or the length of the range (the end
  iterator) when every element is less.
\<close>

fun lower_bound :: "int list \<Rightarrow> int \<Rightarrow> nat" where
  "lower_bound [] v = 0"
| "lower_bound (x # xs) v = (if x < v then Suc (lower_bound xs v) else 0)"

text \<open>
  \<^verbatim>\<open>return *(std::lower_bound(resolution_values_.begin(), resolution_values_.end(), res_val));\<close>
  The dereference of the end iterator has no defined result; the model returns
  \<open>Inl DerefEnd\<close> there.
\<close>

definition NormalizeResolutionValue :: "int \<Rightarrow> failure + int" where
  "NormalizeResolutionValue res_val =
     (let i = lower_bound resolution_values res_val
      in if i < length resolution_values then Inr (resolution_values ! i) else Inl DerefEnd)"

section \<open>Strings\<close>

text \<open>
  \<^verbatim>\<open>std::string::find(ch, pos)\<close> and \<^verbatim>\<open>find_last_of(ch)\<close>: the index found, or
  \<open>None\<close> for \<^verbatim>\<open>npos\<close>.
\<close>

fun index_of :: "char \<Rightarrow> string \<Rightarrow> nat option" where
  "index_of c [] = None"
| "index_of c (x # xs) = (if x = c then Some 0 else map_option Suc (index_of c xs))"

definition find_char :: "string \<Rightarrow> char \<Rightarrow> nat \<Rightarrow> nat option" where
  "find_char s c pos = map_option (\<lambda>i. pos + i) (index_of c (drop pos s))"

definition find_last_of :: "string \<Rightarrow> char \<Rightarrow> nat option" where
  "find_last_of s c = map_option (\<lambda>i. length s - Suc i) (index_of c (rev s))"

text \<open>
  \<^verbatim>\<open>std::stoi(str)\<close>: leading white space is skipped, an optional sign is read, then
  the longest run of decimal digits. No digit: \<^verbatim>\<open>std::invalid_argument\<close>; a value
  outside the range of \<^verbatim>\<open>int\<close>: \<^verbatim>\<open>std::out_of_range\<close>.
\<close>

definition isspace :: "char \<Rightarrow> bool" where
  "isspace c = (c \<in> set [CHR 0x20, CHR 0x09, CHR 0x0A, CHR 0x0B, CHR 0x0C, CHR 0x0D])"

definition isdigit :: "char \<Rightarrow> bool" where
  "isdigit c = (c \<in> set ''0123456789'')"

definition digit_value :: "char \<Rightarrow> int" where
  "digit_value c =
     (case map_of (zip ''0123456789'' [0, 1, 2, 3, 4, 5, 6, 7, 8, 9]) c of
        None \<Rightarrow> 0 | Some d \<Rightarrow> d)"

definition stoi :: "string \<Rightarrow> failure + int" where
  "stoi str =
     (let s1 = dropWhile isspace str;
          neg = (case s1 of [] \<Rightarrow> False | c # r \<Rightarrow> c = CHR ''-'');
          s2 = (case s1 of [] \<Rightarrow> [] | c # r \<Rightarrow> if c = CHR ''-'' \<or> c = CHR ''+'' then r else s1);
          ds = takeWhile isdigit s2;
          n = foldl (\<lambda>a c. 10 * a + digit_value c) 0 ds;
          v = (if neg then - n else n)
      in if ds = [] then Inl InvalidArgument
         else if v < - (2 ^ 31) \<or> 2 ^ 31 - 1 < v then Inl OutOfRange
         else Inr v)"

text \<open>\<^verbatim>\<open>std::to_string(int)\<close>: the decimal digits, after a minus sign for a negative value.\<close>

fun digits_of :: "nat \<Rightarrow> string" where
  "digits_of n =
     (if n < 10 then [''0123456789'' ! n] else digits_of (n div 10) @ [''0123456789'' ! (n mod 10)])"

definition to_string :: "int \<Rightarrow> string" where
  "to_string i = (if i < 0 then CHR ''-'' # digits_of (nat (- i)) else digits_of (nat i))"

section \<open>Regular expressions\<close>

text \<open>
  The three patterns of the header are ECMAScript expressions compiled with
  \<^verbatim>\<open>std::regex::icase\<close> and used through \<^verbatim>\<open>regex_match\<close>, which accepts when the
  whole string matches. Characters are compared after \<^verbatim>\<open>tolower\<close>; the dot matches
  every character but the line terminators LF and CR. Groups do not change what is
  matched and are not represented. \<open>Zero\<close> (no string) only arises in derivatives.
\<close>

datatype regex =
    Zero
  | Eps
  | Chr char
  | AnyChar
  | OneOf string
  | Alt regex regex
  | Seq regex regex
  | Star regex

definition to_lower :: "char \<Rightarrow> char" where
  "to_lower c =
     (case map_of (zip ''ABCDEFGHIJKLMNOPQRSTUVWXYZ'' ''abcdefghijklmnopqrstuvwxyz'') c of
        None \<Rightarrow> c | Some l \<Rightarrow> l)"

definition line_terminator :: "char \<Rightarrow> bool" where
  "line_terminator c = (c = CHR 0x0A \<or> c = CHR 0x0D)"

fun nullable :: "regex \<Rightarrow> bool" where
  "nullable Zero = False"
| "nullable Eps = True"
| "nullable (Chr d) = False"
| "nullable AnyChar = False"
| "nullable (OneOf ds) = False"
| "nullable (Alt r1 r2) = (nullable r1 \<or> nullable r2)"
| "nullable (Seq r1 r2) = (nullable r1 \<and> nullable r2)"
| "nullable (Star r) = True"

fun deriv :: "char \<Rightarrow> regex \<Rightarrow> regex" where
  "deriv c Zero = Zero"
| "deriv c Eps = Zero"
| "deriv c (Chr d) = (if to_lower c = to_lower d then Eps else Zero)"
| "deriv c AnyChar = (if line_terminator c then Zero else Eps)"
| "deriv c (OneOf ds) = (if to_lower c \<in> set (map to_lower ds) then Eps else Zero)"
| "deriv c (Alt r1 r2) = Alt (deriv c r1) (deriv c r2)"
| "deriv c (Seq r1 r2) =
     (if nullable r1 then Alt (Seq (deriv c r1) r2) (deriv c r2) else Seq (deriv c r1) r2)"
| "deriv c (Star r) = Seq (deriv c r) (Star r)"

definition regex_match :: "string \<Rightarrow> regex \<Rightarrow> bool" where
  "regex_match s r = nullable (fold deriv s r)"

fun literal :: "string \<Rightarrow> regex" where
  "literal [] = Eps"
| "literal (c # cs) = Seq (Chr c) (literal cs)"

text \<open>\<^verbatim>\<open>std::regex("((?:rtp|rtmp|rtcp|rtsp|udp)://.*)", std::regex::icase)\<close>\<close>

definition stream_type_regex :: regex where
  "stream_type_regex =
     Seq (Alt (literal ''rtp'') (Alt (literal ''rtmp'') (Alt (literal ''rtcp'')
            (Alt (literal ''rtsp'') (literal ''udp'')))))
         (Seq (literal ''://'') (Star AnyChar))"

text \<open>
  \<^verbatim>\<open>std::regex("((?:http|https)://.*(?:.m3u8|.flv))", std::regex::icase)\<close>; the dots
  before \<^verbatim>\<open>m3u8\<close> and \<^verbatim>\<open>flv\<close> are not escaped.
\<close>

definition stream_ext_regex :: regex where
  "stream_ext_regex =
     Seq (Alt (literal ''http'') (literal ''https''))
         (Seq (literal ''://'')
            (Seq (Star AnyChar)
               (Alt (Seq AnyChar (literal ''m3u8'')) (Seq AnyChar (literal ''flv'')))))"

text \<open>\<^verbatim>\<open>std::regex("(/dev/video[0-9])", std::regex::icase)\<close>\<close>

definition camera_path_regex :: regex where
  "camera_path_regex = Seq (literal ''/dev/video'') (OneOf ''0123456789'')"

text \<open>
  \<^verbatim>\<open>return regex_match(uri, stream_type_regex_) || regex_match(uri, stream_ext_regex_);\<close>
\<close>

definition IsStreamUri :: "string \<Rightarrow> bool" where
  "IsStreamUri u = (regex_match u stream_type_regex \<or> regex_match u stream_ext_regex)"

text \<open>
  The strings a pattern matches, as a relation: \<open>regex_match\<close> accepts every string
  that the pattern matches in this sense.
\<close>

inductive accepts :: "regex \<Rightarrow> string \<Rightarrow> bool" where
  a_eps: "accepts Eps []"
| a_chr: "to_lower c = to_lower d \<Longrightarrow> accepts (Chr d) [c]"
| a_any: "\<not> line_terminator c \<Longrightarrow> accepts AnyChar [c]"
| a_one: "to_lower c \<in> set (map to_lower ds) \<Longrightarrow> accepts (OneOf ds) [c]"
| a_left: "accepts r1 w \<Longrightarrow> accepts (Alt r1 r2) w"
| a_right: "accepts r2 w \<Longrightarrow> accepts (Alt r1 r2) w"
| a_seq: "accepts r1 u \<Longrightarrow> accepts r2 v \<Longrightarrow> accepts (Seq r1 r2) (u @ v)"
| a_stop: "accepts (Star r) []"
| a_more: "accepts r u \<Longrightarrow> accepts (Star r) v \<Longrightarrow> accepts (Star r) (u @ v)"

section \<open>The player\<close>

text \<open>
  A \<^verbatim>\<open>double\<close>: the finite values are reals, beside the two infinities and NaN.
  \<open>double_less\<close> and \<open>double_le\<close> are the operators \<^verbatim>\<open><\<close> and \<^verbatim>\<open><=\<close>;
  every comparison with NaN is false.
\<close>

datatype double = Finite real | PosInf | NegInf | NaN

fun double_less :: "double \<Rightarrow> double \<Rightarrow> bool" where
  "double_less (Finite a) (Finite b) = (a < b)"
| "double_less (Finite a) PosInf = True"
| "double_less NegInf (Finite b) = True"
| "double_less NegInf PosInf = True"
| "double_less _ _ = False"

fun double_le :: "double \<Rightarrow> double \<Rightarrow> bool" where
  "double_le (Finite a) (Finite b) = (a \<le> b)"
| "double_le (Finite a) PosInf = True"
| "double_le NegInf (Finite b) = True"
| "double_le NegInf NegInf = True"
| "double_le NegInf PosInf = True"
| "double_le PosInf PosInf = True"
| "double_le _ _ = False"

type_synonym byte = "8 word"

datatype gst_state = GST_STATE_NULL | GST_STATE_READY | GST_STATE_PAUSED | GST_STATE_PLAYING

text \<open>
  What the player does to its collaborators, in the order it does it: the calls on the
  stream handler, and the requests to the pipeline. \<open>ElementSeek rate key_unit position\<close>
  is \<^verbatim>\<open>gst_element_seek\<close> at the rate, with or without
  \<^verbatim>\<open>GST_SEEK_FLAG_KEY_UNIT\<close>, to the position in nanoseconds.
\<close>

datatype event =
    OnNotifyInitialized
  | OnNotifyFrameDecoded
  | OnNotifyCompleted
  | ElementSeek double bool int
  | SetState gst_state
  | SetMuteProperty bool
  | SetVolumeProperty double
  | IncreaseRank string

text \<open>
  The members of \<^verbatim>\<open>GstVideoPlayer\<close>. An element pointer of \<^verbatim>\<open>gst_\<close> is \<open>None\<close>
  or \<open>False\<close> when null; an element made by a factory keeps the factory's name;
  \<open>buffer\<close> holds the bytes of the referenced \<^verbatim>\<open>GstBuffer\<close>; \<open>caps\<close> is the string set
  on the caps filter.
\<close>

record player =
  uri :: string
  aspect_ratio :: string
  pixels :: "byte list"
  width :: int
  height :: int
  volume :: double
  playback_rate :: double
  mute :: bool
  is_stream :: bool
  is_camera :: bool
  is_inconsistent :: bool
  auto_repeat :: bool
  is_completed :: bool
  pipeline :: bool
  video_src :: "string option"
  video_convert :: "string option"
  caps_filter :: bool
  video_sink :: bool
  output_bin :: bool
  bus :: bool
  buffer :: "byte list option"
  caps :: "string option"
  add_borders :: bool
  events :: "event list"

text \<open>
  What the running pipeline answers: the position and the duration in nanoseconds
  (\<open>None\<close> when the query fails), whether a seek at a rate to a position is accepted,
  and whether a state change fails.
\<close>

record engine =
  query_position :: "int option"
  query_duration :: "int option"
  element_seek :: "double \<Rightarrow> int \<Rightarrow> bool"
  state_change_failure :: bool

text \<open>\<^verbatim>\<open>GST_MSECOND\<close>, a millisecond in nanoseconds.\<close>

definition GST_MSECOND :: int where
  "GST_MSECOND = 1000000"

text \<open>Division of \<^verbatim>\<open>int64_t\<close> truncates towards zero.\<close>

definition int64_div :: "int \<Rightarrow> int \<Rightarrow> int" where
  "int64_div n d = (if (n < 0) = (d < 0) then \<bar>n\<bar> div \<bar>d\<bar> else - (\<bar>n\<bar> div \<bar>d\<bar>))"

definition emit :: "event \<Rightarrow> player \<Rightarrow> player" where
  "emit e s = s\<lparr>events := events s @ [e]\<rparr>"

subsection \<open>Transport controls\<close>

definition Play :: "engine \<Rightarrow> player \<Rightarrow> bool \<times> player" where
  "Play g s = (\<not> state_change_failure g, emit (SetState GST_STATE_PLAYING) s)"

definition Pause :: "engine \<Rightarrow> player \<Rightarrow> bool \<times> player" where
  "Pause g s = (\<not> state_change_failure g, emit (SetState GST_STATE_PAUSED) s)"

definition Stop :: "engine \<Rightarrow> player \<Rightarrow> bool \<times> player" where
  "Stop g s = (\<not> state_change_failure g, emit (SetState GST_STATE_READY) s)"

definition SetVolume :: "double \<Rightarrow> player \<Rightarrow> bool \<times> player" where
  "SetVolume v s =
     (if video_src s = None then (False, s)
      else (True, emit (SetVolumeProperty v) (s\<lparr>volume := v\<rparr>)))"

definition SetAutoRepeat :: "bool \<Rightarrow> player \<Rightarrow> player" where
  "SetAutoRepeat b s = s\<lparr>auto_repeat := b\<rparr>"

definition SetSeek :: "engine \<Rightarrow> int \<Rightarrow> player \<Rightarrow> bool \<times> player" where
  "SetSeek g position s =
     (if is_stream s \<or> is_camera s then (False, s)
      else let nanosecond = position * 1000 * 1000
           in (element_seek g (playback_rate s) nanosecond,
               emit (ElementSeek (playback_rate s) True nanosecond) s))"

definition GetDuration :: "engine \<Rightarrow> player \<Rightarrow> int" where
  "GetDuration g s =
     (if is_stream s \<or> is_camera s then 0
      else case query_duration g of
             None \<Rightarrow> - 1
           | Some duration_msec \<Rightarrow> int64_div duration_msec GST_MSECOND)"

text \<open>
  \<^verbatim>\<open>GetCurrentPosition\<close>: after a successful position query, the block under
  \<^verbatim>\<open>mutex_event_completed_\<close> reads and clears \<^verbatim>\<open>is_completed_\<close>, and when it was set
  calls \<^verbatim>\<open>OnNotifyCompleted\<close> and, with auto-repeat, \<^verbatim>\<open>SetSeek(0)\<close>.
\<close>

definition GetCurrentPosition :: "engine \<Rightarrow> player \<Rightarrow> int \<times> player" where
  "GetCurrentPosition g s =
     (if is_stream s \<or> is_camera s then (0, s)
      else case query_position g of
             None \<Rightarrow> (- 1, s)
           | Some position \<Rightarrow>
               (int64_div position GST_MSECOND,
                if is_completed s
                then let s1 = emit OnNotifyCompleted (s\<lparr>is_completed := False\<rparr>)
                     in if auto_repeat s1 then snd (SetSeek g 0 s1) else s1
                else s))"

definition SetPlaybackRate :: "engine \<Rightarrow> double \<Rightarrow> player \<Rightarrow> bool \<times> player" where
  "SetPlaybackRate g rate s =
     (if is_stream s \<or> is_camera s then (False, s)
      else if video_src s = None then (False, s)
      else if double_le rate (Finite 0) then (False, s)
      else let (position, s1) = GetCurrentPosition g s
           in if position < 0 then (False, s1)
              else let s2 = emit (ElementSeek rate False (position * GST_MSECOND)) s1
                   in if \<not> element_seek g rate (position * GST_MSECOND) then (False, s2)
                      else let m = (double_less rate (Finite (1 / 2)) \<or> double_less (Finite 2) rate)
                           in (True, emit (SetMuteProperty m) (s2\<lparr>playback_rate := rate, mute := m\<rparr>)))"

subsection \<open>Messages of the bus\<close>

datatype gst_message = GST_MESSAGE_EOS | GST_MESSAGE_WARNING | GST_MESSAGE_ERROR | GST_MESSAGE_OTHER

fun HandleGstMessage :: "gst_message \<Rightarrow> player \<Rightarrow> player" where
  "HandleGstMessage GST_MESSAGE_EOS s = s\<lparr>is_completed := True\<rparr>"
| "HandleGstMessage GST_MESSAGE_WARNING s = s"
| "HandleGstMessage GST_MESSAGE_ERROR s = s"
| "HandleGstMessage GST_MESSAGE_OTHER s = s"

subsection \<open>The frame buffer\<close>

text \<open>
  \<^verbatim>\<open>new uint32_t[n]\<close>: \<open>n\<close> pixels of four bytes. The contents of a fresh array are
  indeterminate; the model fills it with zeros, and no statement below speaks of a byte
  that was never written.
\<close>

definition new_pixels :: "int \<Rightarrow> byte list" where
  "new_pixels n = replicate (4 * nat n) 0"

text \<open>
  \<^verbatim>\<open>HandoffHandler\<close> for a delivered buffer whose caps give \<open>w\<close> and \<open>h\<close>. The first
  part runs before \<^verbatim>\<open>mutex_buffer_\<close> is taken: it compares the size with the members and
  reallocates \<^verbatim>\<open>pixels_\<close>. The second part runs under the exclusive lock: it replaces
  the referenced buffer and notifies the stream handler.
\<close>

definition HandoffHandler_unlocked :: "int \<Rightarrow> int \<Rightarrow> player \<Rightarrow> player" where
  "HandoffHandler_unlocked w h s =
     (if w \<noteq> width s \<or> h \<noteq> height s
      then s\<lparr>width := w, height := h, pixels := new_pixels (w * h)\<rparr>
      else s)"

definition HandoffHandler_locked :: "byte list \<Rightarrow> player \<Rightarrow> player" where
  "HandoffHandler_locked buf s = emit OnNotifyFrameDecoded (s\<lparr>buffer := Some buf\<rparr>)"

definition HandoffHandler :: "byte list \<Rightarrow> int \<Rightarrow> int \<Rightarrow> player \<Rightarrow> player" where
  "HandoffHandler buf w h s = HandoffHandler_locked buf (HandoffHandler_unlocked w h s)"

text \<open>
  \<^verbatim>\<open>GetFrameBuffer\<close>, all of it under the shared lock. \<^verbatim>\<open>pixel_bytes\<close> is the
  \<^verbatim>\<open>uint32_t\<close> value of \<^verbatim>\<open>width_ * height_ * 4\<close>; \<^verbatim>\<open>gst_buffer_extract\<close> copies that
  many bytes, or as many as the buffer holds, to the start of \<^verbatim>\<open>pixels_\<close>. The result
  is the array \<^verbatim>\<open>pixels_\<close> points to, or \<open>None\<close> for the null pointer.
\<close>

definition GetFrameBuffer :: "player \<Rightarrow> byte list option \<times> player" where
  "GetFrameBuffer s =
     (case buffer s of
        None \<Rightarrow> (None, s)
      | Some buf \<Rightarrow>
          let pixel_bytes = nat ((width s * height s * 4) mod 2 ^ 32);
              copied = take pixel_bytes buf;
              s1 = s\<lparr>pixels := copied @ drop (length copied) (pixels s)\<rparr>
          in (Some (pixels s1), s1))"

section \<open>Construction\<close>

text \<open>
  What the libraries answer while a player is constructed. \<open>coded_size\<close> stands for the
  libav calls of \<^verbatim>\<open>CheckInconsistency\<close>: the coded width and height of the first video
  stream once a packet was accepted by its decoder, or \<open>None\<close> when the function returns
  early or finds no video stream (the loop that reads packets runs inside these calls).
  The other fields are the GStreamer calls of the same
  names; \<open>sink_caps_size\<close> is the width and height of the sink pad's current caps.
\<close>

record environment =
  coded_size :: "string \<Rightarrow> (int \<times> int) option"
  gst_uri_is_valid :: "string \<Rightarrow> bool"
  gst_filename_to_uri :: "string \<Rightarrow> string option"
  gst_element_factory_find :: "string \<Rightarrow> bool"
  gst_element_factory_make :: "string \<Rightarrow> bool"
  gst_pipeline_new :: bool
  gst_bin_new :: bool
  gst_pipeline_get_bus :: bool
  sink_caps_size :: "(int \<times> int) option"

definition CheckInconsistency :: "environment \<Rightarrow> string \<Rightarrow> player \<Rightarrow> player" where
  "CheckInconsistency env u s =
     (case coded_size env u of
        None \<Rightarrow> s
      | Some (coded_width, coded_height) \<Rightarrow>
          if coded_width \<notin> set resolution_values \<or> coded_height \<notin> set resolution_values
          then s\<lparr>is_inconsistent := True,
                 aspect_ratio := (if coded_height > coded_width then ''16/9'' else ''9/16'')\<rparr>
          else s)"

definition ParseUri :: "environment \<Rightarrow> string \<Rightarrow> string" where
  "ParseUri env u =
     (if gst_uri_is_valid env u then u
      else case gst_filename_to_uri env u of None \<Rightarrow> u | Some filename_uri \<Rightarrow> filename_uri)"

text \<open>
  \<^verbatim>\<open>params.insert(...)\<close> on a \<^verbatim>\<open>std::unordered_map\<close>: a key that is present keeps its
  value.
\<close>

definition insert_param :: "(string \<rightharpoonup> string) \<Rightarrow> string \<times> string \<Rightarrow> (string \<rightharpoonup> string)" where
  "insert_param params kv = (case params (fst kv) of None \<Rightarrow> params(fst kv \<mapsto> snd kv) | Some v \<Rightarrow> params)"

text \<open>
  One parameter \<open>p\<close> cut at its first \<^verbatim>\<open>=\<close>:
  \<^verbatim>\<open>(p.substr(0, p_pos), p.substr(p_pos + 1))\<close>. Without \<^verbatim>\<open>=\<close>, \<^verbatim>\<open>p_pos\<close> is
  \<^verbatim>\<open>npos\<close>, \<^verbatim>\<open>p_pos + 1\<close> wraps to 0 and both parts are \<open>p\<close>.
\<close>

definition split_param :: "string \<Rightarrow> string \<times> string" where
  "split_param p =
     (case find_char p CHR ''='' 0 of None \<Rightarrow> (p, p) | Some p_pos \<Rightarrow> (take p_pos p, drop (Suc p_pos) p))"

text \<open>
  The body of the \<^verbatim>\<open>while\<close> loop of \<^verbatim>\<open>SetStreamDataFromUrl\<close>, entered with
  \<^verbatim>\<open>param_start_pos\<close>, and the test that follows it. With \<^verbatim>\<open>param_end_pos\<close> equal to
  \<^verbatim>\<open>npos\<close> the \<^verbatim>\<open>substr\<close> reaches the end of the string and the loop ends.
\<close>

function params_loop :: "string \<Rightarrow> nat \<Rightarrow> (string \<rightharpoonup> string) \<Rightarrow> (string \<rightharpoonup> string)" where
  "params_loop u param_start_pos params =
     (case find_char u CHR ''&'' param_start_pos of
        None \<Rightarrow> insert_param params (split_param (drop param_start_pos u))
      | Some param_end_pos \<Rightarrow>
          params_loop u (Suc param_end_pos)
            (insert_param params
               (split_param (take (param_end_pos - param_start_pos) (drop param_start_pos u)))))"
  by pat_completeness auto

definition then_do :: "failure + 'a \<Rightarrow> ('a \<Rightarrow> failure + 'b) \<Rightarrow> failure + 'b" where
  "then_do r f = (case r of Inl e \<Rightarrow> Inl e | Inr x \<Rightarrow> f x)"

text \<open>
  \<^verbatim>\<open>width_ = NormalizeResolutionValue(std::stoi(params["w"]))\<close>, and the same for the
  height: an exception of \<^verbatim>\<open>std::stoi\<close> leaves the function.
\<close>

definition normalized_param :: "string \<Rightarrow> failure + int" where
  "normalized_param v = then_do (stoi v) NormalizeResolutionValue"

text \<open>
  The first lines of \<^verbatim>\<open>SetStreamDataFromUrl\<close> after the question mark was found: the
  loop is entered only when a \<^verbatim>\<open>&\<close> follows \<^verbatim>\<open>param_start_pos\<close>.
\<close>

definition parse_params :: "string \<Rightarrow> nat \<Rightarrow> (string \<rightharpoonup> string)" where
  "parse_params u param_start_pos =
     (if find_char u CHR ''&'' param_start_pos = None then Map.empty
      else params_loop u param_start_pos Map.empty)"

text \<open>The three lookups that end \<^verbatim>\<open>SetStreamDataFromUrl\<close>.\<close>

definition apply_params :: "(string \<rightharpoonup> string) \<Rightarrow> player \<Rightarrow> failure + player" where
  "apply_params params s =
     then_do (case params ''w'' of
                None \<Rightarrow> Inr s
              | Some v \<Rightarrow> then_do (normalized_param v) (\<lambda>n. Inr (s\<lparr>width := n\<rparr>)))
       (\<lambda>s1. then_do (case params ''h'' of
                        None \<Rightarrow> Inr s1
                      | Some v \<Rightarrow> then_do (normalized_param v) (\<lambda>n. Inr (s1\<lparr>height := n\<rparr>)))
          (\<lambda>s2. Inr (case params ''o'' of
                       None \<Rightarrow> s2
                     | Some v \<Rightarrow> s2\<lparr>aspect_ratio := (if v = ''l'' then ''16/9'' else ''9/16'')\<rparr>)))"

definition SetStreamDataFromUrl :: "string \<Rightarrow> player \<Rightarrow> failure + (bool \<times> player)" where
  "SetStreamDataFromUrl u s =
     (case find_last_of u CHR ''?'' of
        None \<Rightarrow> Inr (False, s)
      | Some q \<Rightarrow> then_do (apply_params (parse_params u (Suc q)) s) (\<lambda>s1. Inr (True, s1)))"

definition IncreasePluginRanks :: "player \<Rightarrow> player" where
  "IncreasePluginRanks s =
     fold (\<lambda>element. emit (IncreaseRank element))
       [''vah264dec'', ''vah265dec'', ''vapostproc'', ''vadeinterlace'', ''vampeg2dec'',
        ''vavp8dec'', ''vavp9dec''] s"

text \<open>
  The first part of \<^verbatim>\<open>CreatePipeline\<close>: the converter and the caps string, with the
  members that \<^verbatim>\<open>SetStreamDataFromUrl\<close> sets on the way.
\<close>

definition resolve_caps :: "environment \<Rightarrow> player \<Rightarrow> failure + (string \<times> string \<times> player)" where
  "resolve_caps env s =
     (if gst_element_factory_find env ''vapostproc''
      then let capsStr = ''video/x-raw(memory:DMABuf),format=RGBA'' @
                 (if is_inconsistent s then '', pixel-aspect-ratio='' @ aspect_ratio s else [])
           in then_do (if is_stream s then SetStreamDataFromUrl (uri s) s else Inr (False, s))
                (\<lambda>(ok, s1).
                   Inr (''vapostproc'',
                        (if is_stream s \<and> ok
                         then ''video/x-raw, format=RGBA'' @
                              '', width='' @ to_string (width s1) @
                              '', height='' @ to_string (height s1) @
                              '', pixel-aspect-ratio=1/1''
                         else capsStr),
                        IncreasePluginRanks s1))
      else Inr (''videoconvert'', ''video/x-raw,format=RGBA'', s))"

text \<open>
  \<^verbatim>\<open>CreatePipeline\<close>: the elements are made one after the other, and the first that
  cannot be made ends the function with \<^verbatim>\<open>false\<close>.
\<close>

definition CreatePipeline :: "environment \<Rightarrow> player \<Rightarrow> failure + (bool \<times> player)" where
  "CreatePipeline env s =
     then_do (resolve_caps env s)
       (\<lambda>(converter, capsStr, s0).
          let src = (if is_camera s0 then ''v4l2src'' else ''playbin3'')
          in if \<not> gst_pipeline_new env then Inr (False, s0\<lparr>pipeline := False\<rparr>)
             else let s1 = s0\<lparr>pipeline := True\<rparr>
             in if \<not> gst_element_factory_make env src then Inr (False, s1\<lparr>video_src := None\<rparr>)
             else let s2 = s1\<lparr>video_src := Some src\<rparr>
             in if \<not> gst_element_factory_make env converter
                then Inr (False, s2\<lparr>video_convert := None\<rparr>)
             else let s3 = s2\<lparr>video_convert := Some converter\<rparr>
             in if \<not> gst_element_factory_make env ''capsfilter''
                then Inr (False, s3\<lparr>caps_filter := False\<rparr>)
             else let s4 = s3\<lparr>caps_filter := True\<rparr>
             in if \<not> gst_element_factory_make env ''fakesink''
                then Inr (False, s4\<lparr>video_sink := False\<rparr>)
             else let s5 = s4\<lparr>video_sink := True\<rparr>
             in if src = ''playbin3'' \<and> \<not> gst_bin_new env then Inr (False, s5\<lparr>output_bin := False\<rparr>)
             else let s6 = (if src = ''playbin3'' then s5\<lparr>output_bin := True\<rparr> else s5)
             in if \<not> gst_pipeline_get_bus env then Inr (False, s6\<lparr>bus := False\<rparr>)
             else Inr (True, s6\<lparr>bus := True,
                                 add_borders := (\<not> is_inconsistent s6),
                                 caps := Some capsStr\<rparr>))"

definition DestroyPipeline :: "player \<Rightarrow> player" where
  "DestroyPipeline s =
     (let s1 = (if pipeline s then emit (SetState GST_STATE_NULL) s else s)
      in s1\<lparr>buffer := None, bus := False, pipeline := False, video_src := None,
             output_bin := False, video_sink := False, video_convert := None\<rparr>)"

definition Preroll :: "player \<Rightarrow> player" where
  "Preroll s = (if video_src s = None then s else emit (SetState GST_STATE_PAUSED) s)"

definition GetVideoSize :: "environment \<Rightarrow> player \<Rightarrow> player" where
  "GetVideoSize env s =
     (if \<not> pipeline s \<or> \<not> video_sink s then s
      else case sink_caps_size env of
             None \<Rightarrow> s
           | Some (w, h) \<Rightarrow> s\<lparr>width := w, height := h\<rparr>)"

text \<open>
  The members before the constructor's body runs. \<^verbatim>\<open>width_\<close> and \<^verbatim>\<open>height_\<close> have no
  initializer: \<open>w0\<close> and \<open>h0\<close> are whatever they hold. \<^verbatim>\<open>is_camera_\<close> and
  \<^verbatim>\<open>is_inconsistent_\<close> are not declared in the header at hand; like the flags declared
  beside them they start false.
\<close>

definition new_player :: "int \<Rightarrow> int \<Rightarrow> player" where
  "new_player w0 h0 =
     \<lparr>uri = [], aspect_ratio = [], pixels = [], width = w0, height = h0,
      volume = Finite 1, playback_rate = Finite 1, mute = False, is_stream = False,
      is_camera = False, is_inconsistent = False, auto_repeat = False, is_completed = False,
      pipeline = False, video_src = None, video_convert = None, caps_filter = False,
      video_sink = False, output_bin = False, bus = False, buffer = None, caps = None,
      add_borders = False, events = []\<rparr>"

text \<open>The constructor up to \<^verbatim>\<open>CreatePipeline\<close>: the kind of the source.\<close>

definition classify_source :: "environment \<Rightarrow> string \<Rightarrow> player \<Rightarrow> player" where
  "classify_source env ident s =
     (if \<not> regex_match ident camera_path_regex
      then let s1 = s\<lparr>uri := ParseUri env ident\<rparr>;
               s2 = s1\<lparr>is_stream := IsStreamUri (uri s1)\<rparr>
           in if \<not> is_stream s2 then CheckInconsistency env ident s2 else s2
      else s\<lparr>uri := ident, is_camera := True, width := 1920, height := 1080\<rparr>)"

definition GstVideoPlayer :: "environment \<Rightarrow> string \<Rightarrow> int \<Rightarrow> int \<Rightarrow> failure + player" where
  "GstVideoPlayer env ident w0 h0 =
     (let s = classify_source env ident (new_player w0 h0)
      in then_do (CreatePipeline env s)
           (\<lambda>(ok, s1).
              if \<not> ok then Inr (DestroyPipeline s1)
              else let s2 = GetVideoSize env (Preroll s1);
                       s3 = s2\<lparr>pixels := new_pixels (width s2 * height s2)\<rparr>
                   in Inr (emit OnNotifyInitialized s3)))"

section \<open>Sessions\<close>

text \<open>
  A session is a sequence of calls on a constructed player, each with what the pipeline
  answers during it: the public member functions, a message of the bus, or the delivery
  of a frame.
\<close>

datatype call =
    CallPlay
  | CallPause
  | CallStop
  | CallSetVolume double
  | CallSetPlaybackRate double
  | CallSetAutoRepeat bool
  | CallSetSeek int
  | CallGetDuration
  | CallGetCurrentPosition
  | CallGetFrameBuffer
  | Message gst_message
  | Handoff "byte list" int int

fun perform :: "engine \<times> call \<Rightarrow> player \<Rightarrow> player" where
  "perform (g, CallPlay) s = snd (Play g s)"
| "perform (g, CallPause) s = snd (Pause g s)"
| "perform (g, CallStop) s = snd (Stop g s)"
| "perform (g, CallSetVolume v) s = snd (SetVolume v s)"
| "perform (g, CallSetPlaybackRate r) s = snd (SetPlaybackRate g r s)"
| "perform (g, CallSetAutoRepeat b) s = SetAutoRepeat b s"
| "perform (g, CallSetSeek p) s = snd (SetSeek g p s)"
| "perform (g, CallGetDuration) s = s"
| "perform (g, CallGetCurrentPosition) s = snd (GetCurrentPosition g s)"
| "perform (g, CallGetFrameBuffer) s = snd (GetFrameBuffer s)"
| "perform (g, Message m) s = HandleGstMessage m s"
| "perform (g, Handoff buf w h) s = HandoffHandler buf w h s"

definition run :: "(engine \<times> call) list \<Rightarrow> player \<Rightarrow> player" where
  "run calls s = fold perform calls s"

fun is_handoff :: "call \<Rightarrow> bool" where
  "is_handoff (Handoff buf w h) = True"
| "is_handoff c = False"

fun completion_or_seek :: "event \<Rightarrow> bool" where
  "completion_or_seek OnNotifyCompleted = True"
| "completion_or_seek (ElementSeek r k p) = True"
| "completion_or_seek e = False"


text \<open>
  The constructor allocates \<^verbatim>\<open>pixels_\<close> for \<^verbatim>\<open>width_ * height_\<close> pixels, and
  \<^verbatim>\<open>HandoffHandler\<close> reallocates it when the size changes.
\<close>

definition pixels_sized :: "player \<Rightarrow> bool" where
  "pixels_sized s =
     (0 \<le> width s * height s \<and> length (pixels s) = 4 * nat (width s * height s))"

section \<open>Sample sessions\<close>

text \<open>
  A library environment in which every element can be made, the accelerated
  post-processing element exists, strings that start with a slash are file names, and the
  probed file has a coded size of 720 by 1280.
\<close>

definition sample_env :: environment where
  "sample_env =
     \<lparr>coded_size = (\<lambda>u. Some (720, 1280)),
      gst_uri_is_valid = (\<lambda>u. take 1 u \<noteq> ''/''),
      gst_filename_to_uri = (\<lambda>u. Some (''file://'' @ u)),
      gst_element_factory_find = (\<lambda>element. True),
      gst_element_factory_make = (\<lambda>element. True),
      gst_pipeline_new = True, gst_bin_new = True, gst_pipeline_get_bus = True,
      sink_caps_size = Some (2, 1)\<rparr>"

definition sample_engine :: engine where
  "sample_engine =
     \<lparr>query_position = Some 5000000000, query_duration = Some 60000000000,
      element_seek = (\<lambda>rate position. True), state_change_failure = False\<rparr>"

definition failing_engine :: engine where
  "failing_engine =
     \<lparr>query_position = None, query_duration = None,
      element_seek = (\<lambda>rate position. False), state_change_failure = True\<rparr>"

text \<open>A player playing a local file of 2 by 1 pixels, and one playing a network stream.\<close>

definition file_player :: player where
  "file_player =
     (new_player 2 1)\<lparr>uri := ''file:///media/clip.mp4'', pixels := new_pixels 2,
        pipeline := True, video_src := Some ''playbin3'', video_convert := Some ''videoconvert'',
        caps_filter := True, video_sink := True, output_bin := True, bus := True,
        caps := Some ''video/x-raw,format=RGBA'', add_borders := True,
        events := [SetState GST_STATE_PAUSED, OnNotifyInitialized]\<rparr>"

definition stream_player :: player where
  "stream_player = file_player\<lparr>uri := ''rtsp://camera.local/live'', is_stream := True\<rparr>"

text \<open>The local file player holding a delivered frame of 2 by 1 pixels.\<close>

definition held_frame_player :: player where
  "held_frame_player = file_player\<lparr>buffer := Some [1, 2, 3, 4, 5, 6, 7, 8]\<rparr>"


section \<open>Stream identifiers with query parameters\<close>







section \<open>Properties\<close>

subsection \<open>Termination of the parameter loop\<close>

lemma index_of_Some: "index_of c xs = Some i \<Longrightarrow> i < length xs"
  by (induction xs arbitrary: i) (auto split: if_splits)

lemma find_char_Some: "find_char u c pos = Some e \<Longrightarrow> pos \<le> e \<and> e < length u"
  by (auto simp: find_char_def dest!: index_of_Some)

termination params_loop
  by (relation "measure (\<lambda>(u, start, params). length u - start)")
     (auto dest!: find_char_Some)

declare params_loop.simps [simp del]

subsection \<open>Resolution catalog\<close>

lemma NormalizeResolutionValue_cases:
  "NormalizeResolutionValue v =
     (if v \<le> 1080 then Inr 1080 else if v \<le> 1920 then Inr 1920
      else if v \<le> 2160 then Inr 2160 else if v \<le> 3480 then Inr 3480 else Inl DerefEnd)"
  by (simp add: NormalizeResolutionValue_def resolution_values_def)

text \<open>
  C3. For every input not exceeding 3480, \<open>NormalizeResolutionValue\<close> returns the
  smallest element of the catalog 1080, 1920, 2160, 3480 that is greater than or equal to
  the input; 1000 is mapped to 1080, 1920 to 1920 and 2000 to 2160.
\<close>

theorem NormalizeResolutionValue_smallest_not_less:
  "(v \<le> 3480 \<longrightarrow>
      (\<exists>r. NormalizeResolutionValue v = Inr r \<and> r \<in> set resolution_values \<and> v \<le> r \<and>
           (\<forall>c \<in> set resolution_values. v \<le> c \<longrightarrow> r \<le> c)))
   \<and> NormalizeResolutionValue 1000 = Inr 1080
   \<and> NormalizeResolutionValue 1920 = Inr 1920
   \<and> NormalizeResolutionValue 2000 = Inr 2160"
  by (simp add: NormalizeResolutionValue_cases resolution_values_def)

theorem NormalizeResolutionValue_smallest_not_less_witness:
  "(3000::int) \<le> 3480 \<and> NormalizeResolutionValue 3000 = Inr 3480
   \<and> 3480 \<in> set resolution_values \<and> (2160::int) < 3000"
  using NormalizeResolutionValue_smallest_not_less [of 3000]
  by (auto simp: resolution_values_def)

subsection \<open>Preflight probe\<close>

lemma CheckInconsistency_outside_catalog:
  assumes "coded_size env u = Some (w, h)"
    and "w \<notin> set resolution_values \<or> h \<notin> set resolution_values"
  shows "CheckInconsistency env u s =
    s\<lparr>is_inconsistent := True, aspect_ratio := (if h > w then ''16/9'' else ''9/16'')\<rparr>"
  using assms by (auto simp: CheckInconsistency_def)

text \<open>
  C1. The probe of a local file whose coded size is 720 by 1280, taller than wide and with
  both values outside the catalog, marks the source inconsistent and sets the aspect ratio
  to 16/9, where the specification gives 9/16 for a coded height above the coded width.
\<close>

theorem CheckInconsistency_taller_than_wide:
  "is_inconsistent (CheckInconsistency sample_env ''/media/clip.mp4'' (new_player 0 0))
   \<and> aspect_ratio (CheckInconsistency sample_env ''/media/clip.mp4'' (new_player 0 0)) = ''16/9''"
  by (simp add: CheckInconsistency_def sample_env_def new_player_def resolution_values_def)

theorem CheckInconsistency_taller_than_wide_witness:
  "coded_size sample_env ''/media/clip.mp4'' = Some (720, 1280)
   \<and> aspect_ratio (CheckInconsistency sample_env ''/media/clip.mp4'' (new_player 0 0)) \<noteq> ''9/16''"
  using CheckInconsistency_taller_than_wide by (simp add: sample_env_def)

subsection \<open>Playback rate and duration\<close>

text \<open>
  C4. \<open>SetPlaybackRate\<close> returns false and leaves the player as it was for a network stream
  or a camera, whatever the rate, and for a local file when the rate is at most 0; when it
  returns true, the recorded rate is the new rate and mute is set exactly when the new rate
  is below 0.5 or above 2.
\<close>

theorem SetPlaybackRate_rejects_or_mutes:
  "(is_stream s \<or> is_camera s \<longrightarrow> SetPlaybackRate g rate s = (False, s))
   \<and> (\<not> is_stream s \<and> \<not> is_camera s \<and> double_le rate (Finite 0) \<longrightarrow>
        SetPlaybackRate g rate s = (False, s))
   \<and> (SetPlaybackRate g rate s = (True, s') \<longrightarrow>
        playback_rate s' = rate \<and>
        mute s' = (double_less rate (Finite (1 / 2)) \<or> double_less (Finite 2) rate))"
  by (auto simp: SetPlaybackRate_def Let_def emit_def split: if_splits prod.splits)

theorem SetPlaybackRate_rejects_or_mutes_witness:
  "is_stream stream_player
   \<and> SetPlaybackRate sample_engine (Finite 3) stream_player = (False, stream_player)
   \<and> \<not> is_stream file_player \<and> \<not> is_camera file_player \<and> double_le (Finite (- 1)) (Finite 0)
   \<and> SetPlaybackRate sample_engine (Finite (- 1)) file_player = (False, file_player)
   \<and> fst (SetPlaybackRate sample_engine (Finite 3) file_player)
   \<and> mute (snd (SetPlaybackRate sample_engine (Finite 3) file_player))
   \<and> playback_rate (snd (SetPlaybackRate sample_engine (Finite 3) file_player)) = Finite 3"
proof -
  have kinds: "is_stream stream_player" "\<not> is_stream file_player" "\<not> is_camera file_player"
    by (simp_all add: stream_player_def file_player_def new_player_def)
  have ok: "fst (SetPlaybackRate sample_engine (Finite 3) file_player)"
    by (simp add: SetPlaybackRate_def GetCurrentPosition_def file_player_def new_player_def
        sample_engine_def int64_div_def GST_MSECOND_def emit_def Let_def)
  then have "SetPlaybackRate sample_engine (Finite 3) file_player =
      (True, snd (SetPlaybackRate sample_engine (Finite 3) file_player))"
    by (cases "SetPlaybackRate sample_engine (Finite 3) file_player") simp
  with kinds ok show ?thesis
    using SetPlaybackRate_rejects_or_mutes [of stream_player sample_engine "Finite 3"]
      SetPlaybackRate_rejects_or_mutes [of file_player sample_engine "Finite (- 1)"]
      SetPlaybackRate_rejects_or_mutes [of file_player sample_engine "Finite 3"
        "snd (SetPlaybackRate sample_engine (Finite 3) file_player)"]
    by simp
qed

text \<open>
  C8. \<open>GetDuration\<close> is 0 for a camera and for a network stream; for a local file whose
  duration query fails it is \<open>- 1\<close>, a negative value other than 0. The function is total:
  it returns a value on every path.
\<close>

theorem GetDuration_zero_or_sentinel:
  "(is_stream s \<or> is_camera s \<longrightarrow> GetDuration g s = 0)
   \<and> (\<not> is_stream s \<and> \<not> is_camera s \<and> query_duration g = None \<longrightarrow>
        GetDuration g s = - 1 \<and> GetDuration g s < 0 \<and> GetDuration g s \<noteq> 0)"
  by (simp add: GetDuration_def)

theorem GetDuration_zero_or_sentinel_witness:
  "is_stream stream_player \<and> GetDuration failing_engine stream_player = 0
   \<and> \<not> is_stream file_player \<and> \<not> is_camera file_player \<and> query_duration failing_engine = None
   \<and> GetDuration failing_engine file_player = - 1"
  using GetDuration_zero_or_sentinel [of stream_player failing_engine]
    GetDuration_zero_or_sentinel [of file_player failing_engine]
  by (simp add: stream_player_def file_player_def new_player_def failing_engine_def)

subsection \<open>Completion\<close>

lemma HandleGstMessage_eq:
  "HandleGstMessage m s = (if m = GST_MESSAGE_EOS then s\<lparr>is_completed := True\<rparr> else s)"
  by (cases m) simp_all









lemma perform_kind:
  "is_stream (perform gc s) = is_stream s \<and> is_camera (perform gc s) = is_camera s"
  by (cases gc, rename_tac g c, case_tac c)
     (auto simp: Play_def Pause_def Stop_def SetVolume_def SetPlaybackRate_def SetAutoRepeat_def
        SetSeek_def GetCurrentPosition_def GetFrameBuffer_def HandoffHandler_def
        HandoffHandler_locked_def HandoffHandler_unlocked_def emit_def Let_def HandleGstMessage_eq
        split: option.splits prod.splits)

lemma run_kind:
  "is_stream (run calls s) = is_stream s \<and> is_camera (run calls s) = is_camera s"
  unfolding run_def by (induction calls arbitrary: s) (simp_all add: perform_kind)

lemma perform_no_completion:
  "is_stream s \<or> is_camera s \<Longrightarrow>
   filter completion_or_seek (events (perform gc s)) = filter completion_or_seek (events s)"
  by (cases gc, rename_tac g c, case_tac c)
     (auto simp: Play_def Pause_def Stop_def SetVolume_def SetPlaybackRate_def SetAutoRepeat_def
        SetSeek_def GetCurrentPosition_def GetFrameBuffer_def HandoffHandler_def
        HandoffHandler_locked_def HandoffHandler_unlocked_def emit_def Let_def HandleGstMessage_eq
        split: option.splits prod.splits)

lemma run_no_completion:
  "is_stream s \<or> is_camera s \<Longrightarrow>
   filter completion_or_seek (events (run calls s)) = filter completion_or_seek (events s)"
proof (induction calls arbitrary: s)
  case Nil
  then show ?case by (simp add: run_def)
next
  case (Cons gc calls)
  have "is_stream (perform gc s) \<or> is_camera (perform gc s)"
    using Cons.prems by (simp add: perform_kind)
  from Cons.IH [OF this] show ?case
    using Cons.prems by (simp add: run_def perform_no_completion)
qed

text \<open>
  C10. For a camera or a network stream, after any session (with as many end-of-stream
  messages as one likes) \<open>GetCurrentPosition\<close> returns 0 and leaves the player as it
  is, the completion flag included; and no session of such a source adds a completion
  notification or a seek to the events.
\<close>

theorem stream_position_never_drains:
  assumes "is_stream s \<or> is_camera s"
  shows "GetCurrentPosition g (run calls s) = (0, run calls s)
    \<and> filter completion_or_seek (events (run calls s)) = filter completion_or_seek (events s)"
  using assms run_kind [of calls s] run_no_completion [of s calls]
  by (simp add: GetCurrentPosition_def)

theorem stream_position_never_drains_witness:
  "is_stream stream_player
   \<and> GetCurrentPosition sample_engine
        (run [(sample_engine, Message GST_MESSAGE_EOS), (sample_engine, Message GST_MESSAGE_EOS),
              (sample_engine, CallGetCurrentPosition)] (SetAutoRepeat True stream_player))
       = (0, (SetAutoRepeat True stream_player)\<lparr>is_completed := True\<rparr>)"
  using stream_position_never_drains [of "SetAutoRepeat True stream_player" sample_engine
      "[(sample_engine, Message GST_MESSAGE_EOS), (sample_engine, Message GST_MESSAGE_EOS),
        (sample_engine, CallGetCurrentPosition)]"]
  by (simp add: stream_player_def file_player_def new_player_def SetAutoRepeat_def run_def
      GetCurrentPosition_def)

subsection \<open>The frame buffer\<close>

lemma pixel_bytes_le:
  "0 \<le> (a::int) \<Longrightarrow> nat (a * 4 mod 4294967296) \<le> 4 * nat a"
proof -
  assume a: "0 \<le> a"
  have "a * 4 mod 4294967296 \<le> a * 4"
    by (rule zmod_le_nonneg_dividend) (use a in simp)
  then show ?thesis using a by linarith
qed

lemma GetFrameBuffer_fields:
  "pixels_sized s \<Longrightarrow>
   buffer (snd (GetFrameBuffer s)) = buffer s \<and> width (snd (GetFrameBuffer s)) = width s
   \<and> height (snd (GetFrameBuffer s)) = height s
   \<and> length (pixels (snd (GetFrameBuffer s))) = length (pixels s)"
  using pixel_bytes_le [of "width s * height s"]
  by (auto simp: GetFrameBuffer_def pixels_sized_def Let_def split: option.splits)

lemma perform_frame_fields:
  "\<not> is_handoff (snd gc) \<Longrightarrow> pixels_sized s \<Longrightarrow>
   buffer (perform gc s) = buffer s \<and> width (perform gc s) = width s
   \<and> height (perform gc s) = height s \<and> length (pixels (perform gc s)) = length (pixels s)"
  by (cases gc, rename_tac g c, case_tac c)
     (auto simp: Play_def Pause_def Stop_def SetVolume_def SetPlaybackRate_def SetAutoRepeat_def
        SetSeek_def GetCurrentPosition_def GetFrameBuffer_fields emit_def Let_def HandleGstMessage_eq
        split: option.splits prod.splits)

lemma run_frame_fields:
  "\<forall>gc \<in> set calls. \<not> is_handoff (snd gc) \<Longrightarrow> pixels_sized s \<Longrightarrow>
   buffer (run calls s) = buffer s \<and> width (run calls s) = width s
   \<and> height (run calls s) = height s \<and> length (pixels (run calls s)) = length (pixels s)"
proof (induction calls arbitrary: s)
  case Nil
  then show ?case by (simp add: run_def)
next
  case (Cons gc calls)
  have step: "buffer (perform gc s) = buffer s \<and> width (perform gc s) = width s
      \<and> height (perform gc s) = height s \<and> length (pixels (perform gc s)) = length (pixels s)"
    using Cons.prems by (simp add: perform_frame_fields)
  then have "pixels_sized (perform gc s)"
    using Cons.prems(2) by (simp add: pixels_sized_def)
  with Cons.IH [of "perform gc s"] Cons.prems(1) step show ?case
    by (simp add: run_def)
qed

lemma perform_buffer:
  "\<not> is_handoff (snd gc) \<Longrightarrow> buffer (perform gc s) = buffer s"
  by (cases gc, rename_tac g c, case_tac c)
     (auto simp: Play_def Pause_def Stop_def SetVolume_def SetPlaybackRate_def SetAutoRepeat_def
        SetSeek_def GetCurrentPosition_def GetFrameBuffer_def emit_def Let_def HandleGstMessage_eq
        split: option.splits prod.splits)

lemma run_buffer:
  "\<forall>gc \<in> set calls. \<not> is_handoff (snd gc) \<Longrightarrow> buffer (run calls s) = buffer s"
  unfolding run_def by (induction calls arbitrary: s) (simp_all add: perform_buffer)

lemma then_do_Inr: "then_do r f = Inr y \<Longrightarrow> \<exists>x. r = Inr x \<and> f x = Inr y"
  by (cases r) (simp_all add: then_do_def)

lemma apply_params_buffer:
  assumes "apply_params params s = Inr s1"
  shows "buffer s1 = buffer s"
proof -
  from assms obtain sa sb where
    a: "(case params ''w'' of None \<Rightarrow> Inr s
         | Some v \<Rightarrow> then_do (normalized_param v) (\<lambda>n. Inr (s\<lparr>width := n\<rparr>))) = Inr sa"
    and b: "(case params ''h'' of None \<Rightarrow> Inr sa
         | Some v \<Rightarrow> then_do (normalized_param v) (\<lambda>n. Inr (sa\<lparr>height := n\<rparr>))) = Inr sb"
    and c: "s1 = (case params ''o'' of None \<Rightarrow> sb
         | Some v \<Rightarrow> sb\<lparr>aspect_ratio := (if v = ''l'' then ''16/9'' else ''9/16'')\<rparr>)"
    unfolding apply_params_def by (auto dest!: then_do_Inr)
  from a have "buffer sa = buffer s"
    by (auto split: option.splits dest!: then_do_Inr)
  moreover from b have "buffer sb = buffer sa"
    by (auto split: option.splits dest!: then_do_Inr)
  moreover from c have "buffer s1 = buffer sb"
    by (simp split: option.splits)
  ultimately show ?thesis by simp
qed

lemma SetStreamDataFromUrl_buffer:
  "SetStreamDataFromUrl u s = Inr (ok, s1) \<Longrightarrow> buffer s1 = buffer s"
  unfolding SetStreamDataFromUrl_def
  by (auto split: option.splits dest!: then_do_Inr apply_params_buffer)

lemma IncreasePluginRanks_buffer: "buffer (IncreasePluginRanks s) = buffer s"
  by (simp add: IncreasePluginRanks_def emit_def)

lemma resolve_caps_buffer:
  assumes "resolve_caps env s = Inr (converter, capsStr, s1)"
  shows "buffer s1 = buffer s"
proof (cases "gst_element_factory_find env ''vapostproc''")
  case False
  with assms show ?thesis by (simp add: resolve_caps_def)
next
  case True
  with assms obtain ok s0 where
    r: "(if is_stream s then SetStreamDataFromUrl (uri s) s else Inr (False, s)) = Inr (ok, s0)"
    and s1: "s1 = IncreasePluginRanks s0"
    unfolding resolve_caps_def Let_def by (auto dest!: then_do_Inr)
  from r have "buffer s0 = buffer s"
    by (auto split: if_splits dest: SetStreamDataFromUrl_buffer)
  with s1 show ?thesis by (simp add: IncreasePluginRanks_buffer)
qed

lemma CreatePipeline_buffer:
  assumes "CreatePipeline env s = Inr (ok, s1)"
  shows "buffer s1 = buffer s"
proof -
  from assms obtain converter capsStr s0 where
    r: "resolve_caps env s = Inr (converter, capsStr, s0)"
    and rest: "buffer s1 = buffer s0"
    unfolding CreatePipeline_def Let_def
    by (auto dest!: then_do_Inr split: if_splits)
  from r rest show ?thesis by (simp add: resolve_caps_buffer)
qed

lemma classify_source_buffer: "buffer (classify_source env ident s) = buffer s"
  by (simp add: classify_source_def CheckInconsistency_def Let_def split: option.splits)

lemma constructed_no_buffer:
  assumes "GstVideoPlayer env ident w0 h0 = Inr s"
  shows "buffer s = None"
proof -
  let ?c = "classify_source env ident (new_player w0 h0)"
  from assms obtain ok s1 where
    cp: "CreatePipeline env ?c = Inr (ok, s1)"
    and s: "s = (if \<not> ok then DestroyPipeline s1
                 else emit OnNotifyInitialized
                   ((GetVideoSize env (Preroll s1))\<lparr>pixels :=
                      new_pixels (width (GetVideoSize env (Preroll s1)) *
                                  height (GetVideoSize env (Preroll s1)))\<rparr>))"
    unfolding GstVideoPlayer_def Let_def by (auto dest!: then_do_Inr split: if_splits)
  from cp have "buffer s1 = None"
    by (simp add: CreatePipeline_buffer classify_source_buffer new_player_def)
  with s show ?thesis
    by (simp add: DestroyPipeline_def emit_def GetVideoSize_def Preroll_def Let_def
        split: option.splits)
qed

lemma HandoffHandler_fields:
  assumes "pixels_sized s" and "0 \<le> w" and "0 \<le> h"
  shows "buffer (HandoffHandler buf w h s) = Some buf \<and> width (HandoffHandler buf w h s) = w
    \<and> height (HandoffHandler buf w h s) = h
    \<and> length (pixels (HandoffHandler buf w h s)) = 4 * nat (w * h)"
  using assms
  by (simp add: HandoffHandler_def HandoffHandler_locked_def HandoffHandler_unlocked_def emit_def
      pixels_sized_def new_pixels_def)

lemma GetFrameBuffer_copy:
  assumes "buffer s = Some buf" and "0 \<le> width s * height s"
    and "width s * height s * 4 < 2 ^ 31"
    and "length (pixels s) = 4 * nat (width s * height s)"
  shows "\<exists>bytes. fst (GetFrameBuffer s) = Some bytes
    \<and> length bytes = nat (width s * height s * 4)
    \<and> take (length buf) bytes = take (nat (width s * height s * 4)) buf"
proof -
  let ?n = "nat (width s * height s * 4)"
  have n: "nat ((width s * height s * 4) mod 2 ^ 32) = ?n"
    using assms(2,3) by simp
  have len: "length (pixels s) = ?n"
    using assms(2,4) by simp
  have res: "fst (GetFrameBuffer s) = Some (take ?n buf @ drop (length (take ?n buf)) (pixels s))"
    using assms(1) n by (simp add: GetFrameBuffer_def Let_def)
  show ?thesis
    unfolding res using len by (auto simp: min_def)
qed

lemma constructed_pixels_sized:
  assumes "GstVideoPlayer env ident w0 h0 = Inr s" and "pipeline s"
    and "0 \<le> width s * height s"
  shows "pixels_sized s"
proof -
  let ?c = "classify_source env ident (new_player w0 h0)"
  from assms(1) obtain ok s1 where
    cp: "CreatePipeline env ?c = Inr (ok, s1)"
    and s: "s = (if \<not> ok then DestroyPipeline s1
             else emit OnNotifyInitialized
               ((GetVideoSize env (Preroll s1))\<lparr>pixels :=
                  new_pixels (width (GetVideoSize env (Preroll s1)) *
                              height (GetVideoSize env (Preroll s1)))\<rparr>))"
    unfolding GstVideoPlayer_def Let_def by (auto dest!: then_do_Inr split: if_splits)
  show ?thesis
  proof (cases ok)
    case False
    with s assms(2) show ?thesis by (simp add: DestroyPipeline_def Let_def)
  next
    case True
    with s assms(3) show ?thesis
      by (simp add: pixels_sized_def emit_def new_pixels_def)
  qed
qed

lemma HandoffHandler_pixels_sized:
  "pixels_sized s \<Longrightarrow> 0 \<le> w * h \<Longrightarrow> pixels_sized (HandoffHandler buf w h s)"
  by (simp add: HandoffHandler_def HandoffHandler_locked_def HandoffHandler_unlocked_def emit_def
      pixels_sized_def new_pixels_def)

lemma perform_pixels_sized:
  "\<not> is_handoff (snd gc) \<Longrightarrow> pixels_sized s \<Longrightarrow> pixels_sized (perform gc s)"
  using perform_frame_fields [of gc s] by (simp add: pixels_sized_def)

lemma constructed_camera:
  "\<exists>s0. GstVideoPlayer sample_env ''/dev/video0'' 0 0 = Inr s0"
  by (simp add: GstVideoPlayer_def classify_source_def regex_match_def camera_path_regex_def
      to_lower_def new_player_def CreatePipeline_def resolve_caps_def sample_env_def then_do_def
      Let_def)

text \<open>
  C7. \<open>GetFrameBuffer\<close> returns the null pointer in every session of a constructed player
  in which no frame was delivered. After a delivery of \<open>w\<close> by \<open>h\<close> pixels, and any calls
  that follow it without another delivery, it returns an array of exactly \<open>w * h * 4\<close>
  bytes that starts with the bytes of the delivered buffer (all of them, or the first
  \<open>w * h * 4\<close> when the buffer holds more).
\<close>

theorem GetFrameBuffer_null_then_snapshot:
  "(GstVideoPlayer env ident w0 h0 = Inr s0 \<and> (\<forall>gc \<in> set calls. \<not> is_handoff (snd gc)) \<longrightarrow>
      fst (GetFrameBuffer (run calls s0)) = None)
   \<and> (pixels_sized s \<and> 0 \<le> w \<and> 0 \<le> h \<and> w * h * 4 < 2 ^ 31
       \<and> (\<forall>gc \<in> set calls. \<not> is_handoff (snd gc)) \<longrightarrow>
      (\<exists>bytes. fst (GetFrameBuffer (run calls (HandoffHandler buf w h s))) = Some bytes
         \<and> length bytes = nat (w * h * 4)
         \<and> take (length buf) bytes = take (nat (w * h * 4)) buf))"
proof (intro conjI impI)
  assume "GstVideoPlayer env ident w0 h0 = Inr s0 \<and> (\<forall>gc \<in> set calls. \<not> is_handoff (snd gc))"
  then have "buffer (run calls s0) = None"
    using constructed_no_buffer [of env ident w0 h0 s0] by (simp add: run_buffer)
  then show "fst (GetFrameBuffer (run calls s0)) = None"
    by (simp add: GetFrameBuffer_def)
next
  assume a: "pixels_sized s \<and> 0 \<le> w \<and> 0 \<le> h \<and> w * h * 4 < 2 ^ 31
       \<and> (\<forall>gc \<in> set calls. \<not> is_handoff (snd gc))"
  let ?d = "HandoffHandler buf w h s"
  have d: "buffer ?d = Some buf \<and> width ?d = w \<and> height ?d = h
      \<and> length (pixels ?d) = 4 * nat (w * h)"
    using a by (simp add: HandoffHandler_fields)
  have wh: "0 \<le> w * h" using a by simp
  have "pixels_sized ?d"
    using d wh by (simp add: pixels_sized_def)
  with a have r: "buffer (run calls ?d) = buffer ?d \<and> width (run calls ?d) = width ?d
      \<and> height (run calls ?d) = height ?d
      \<and> length (pixels (run calls ?d)) = length (pixels ?d)"
    by (simp add: run_frame_fields)
  show "\<exists>bytes. fst (GetFrameBuffer (run calls ?d)) = Some bytes
         \<and> length bytes = nat (w * h * 4)
         \<and> take (length buf) bytes = take (nat (w * h * 4)) buf"
    using GetFrameBuffer_copy [of "run calls ?d" buf] r d wh a by simp
qed

theorem GetFrameBuffer_null_then_snapshot_witness:
  "(\<exists>s0. GstVideoPlayer sample_env ''/dev/video0'' 0 0 = Inr s0
      \<and> fst (GetFrameBuffer (run [(sample_engine, CallPlay), (sample_engine, CallGetFrameBuffer)] s0)) = None)
   \<and> pixels_sized file_player
   \<and> (\<exists>bytes. fst (GetFrameBuffer (run [(sample_engine, CallPause)]
          (HandoffHandler [1, 2, 3, 4] 1 1 file_player))) = Some bytes
        \<and> length bytes = 4 \<and> take 4 bytes = [1, 2, 3, 4])"
proof -
  obtain s0 where s0: "GstVideoPlayer sample_env ''/dev/video0'' 0 0 = Inr s0"
    using constructed_camera by blast
  have sized: "pixels_sized file_player"
    by (simp add: pixels_sized_def file_player_def new_player_def new_pixels_def)
  have "fst (GetFrameBuffer (run [(sample_engine, CallPlay), (sample_engine, CallGetFrameBuffer)] s0)) = None"
    using GetFrameBuffer_null_then_snapshot [of sample_env "''/dev/video0''" 0 0 s0
        "[(sample_engine, CallPlay), (sample_engine, CallGetFrameBuffer)]"] s0
    by simp
  moreover have "\<exists>bytes. fst (GetFrameBuffer (run [(sample_engine, CallPause)]
          (HandoffHandler [1, 2, 3, 4] 1 1 file_player))) = Some bytes
        \<and> length bytes = 4 \<and> take 4 bytes = [1, 2, 3, 4]"
    using GetFrameBuffer_null_then_snapshot [of sample_env "''/dev/video0''" 0 0 s0 "[(sample_engine, CallPause)]"
        file_player 1 1 "[1, 2, 3, 4]"] sized
    by (auto simp: eval_nat_numeral)
  ultimately show ?thesis using s0 sized by blast
qed

text \<open>
  C9. A delivery of 1 by 1 pixels to a player that holds a frame of 2 by 1 pixels, with a
  \<open>GetFrameBuffer\<close> that runs after the part of \<open>HandoffHandler\<close> outside the lock and
  before the part under the lock: the reader gets four bytes of the old frame for the new
  size, which is neither what it gets before the delivery nor what it gets after it.
\<close>

theorem GetFrameBuffer_between_resize_and_swap:
  "fst (GetFrameBuffer held_frame_player) = Some [1, 2, 3, 4, 5, 6, 7, 8]
   \<and> fst (GetFrameBuffer (HandoffHandler [9, 9, 9, 9] 1 1 held_frame_player)) = Some [9, 9, 9, 9]
   \<and> fst (GetFrameBuffer (HandoffHandler_unlocked 1 1 held_frame_player)) = Some [1, 2, 3, 4]
   \<and> width (HandoffHandler_unlocked 1 1 held_frame_player) = 1
   \<and> height (HandoffHandler_unlocked 1 1 held_frame_player) = 1"
  by (simp add: GetFrameBuffer_def HandoffHandler_def HandoffHandler_locked_def
      HandoffHandler_unlocked_def held_frame_player_def file_player_def new_player_def
      new_pixels_def emit_def Let_def)

theorem GetFrameBuffer_between_resize_and_swap_witness:
  "fst (GetFrameBuffer (HandoffHandler_unlocked 1 1 held_frame_player))
     \<noteq> fst (GetFrameBuffer held_frame_player)
   \<and> fst (GetFrameBuffer (HandoffHandler_unlocked 1 1 held_frame_player))
     \<noteq> fst (GetFrameBuffer (HandoffHandler [9, 9, 9, 9] 1 1 held_frame_player))"
  using GetFrameBuffer_between_resize_and_swap by simp

subsection \<open>Classification\<close>

lemma accepts_nil_nullable: "accepts r w \<Longrightarrow> w = [] \<Longrightarrow> nullable r"
  by (induction rule: accepts.induct) auto

lemma accepts_deriv: "accepts r x \<Longrightarrow> x = c # w \<Longrightarrow> accepts (deriv c r) w"
proof (induction arbitrary: w rule: accepts.induct)
  case (a_seq r1 u r2 v)
  show ?case
  proof (cases u)
    case Nil
    with a_seq have "nullable r1" and "accepts (deriv c r2) w"
      by (auto dest: accepts_nil_nullable)
    then show ?thesis by (simp add: accepts.a_right)
  next
    case (Cons a u')
    with a_seq have "accepts (deriv c r1) u'" and w: "w = u' @ v" by auto
    with a_seq.hyps(2) have "accepts (Seq (deriv c r1) r2) w"
      by (auto intro: accepts.a_seq)
    then show ?thesis by (simp add: accepts.a_left)
  qed
next
  case (a_more r u v)
  show ?case
  proof (cases u)
    case Nil
    with a_more show ?thesis by simp
  next
    case (Cons a u')
    with a_more have "accepts (deriv c r) u'" and "w = u' @ v" by auto
    with a_more.hyps(2) show ?thesis by (auto intro: accepts.a_seq)
  qed
qed (auto intro: accepts.intros)

lemma accepts_regex_match: "accepts r s \<Longrightarrow> regex_match s r"
proof (induction s arbitrary: r)
  case Nil
  then show ?case by (simp add: regex_match_def accepts_nil_nullable)
next
  case (Cons c s)
  from Cons.prems have "accepts (deriv c r) s" by (rule accepts_deriv) simp
  from Cons.IH [OF this] show ?case by (simp add: regex_match_def)
qed

lemma accepts_literal: "map to_lower s = map to_lower l \<Longrightarrow> accepts (literal l) s"
proof (induction l arbitrary: s)
  case Nil
  then show ?case by (simp add: accepts.a_eps)
next
  case (Cons d l)
  then obtain c s' where s: "s = c # s'" by (cases s) auto
  with Cons have "accepts (Chr d) [c]" and "accepts (literal l) s'"
    by (auto intro: accepts.a_chr)
  then have "accepts (Seq (Chr d) (literal l)) ([c] @ s')" by (rule accepts.a_seq)
  with s show ?case by simp
qed

lemma accepts_any_star: "\<forall>c \<in> set w. \<not> line_terminator c \<Longrightarrow> accepts (Star AnyChar) w"
proof (induction w)
  case Nil
  show ?case by (rule accepts.a_stop)
next
  case (Cons c w)
  then have "accepts AnyChar [c]" and "accepts (Star AnyChar) w"
    by (auto intro: accepts.a_any)
  then have "accepts (Star AnyChar) ([c] @ w)" by (rule accepts.a_more)
  then show ?case by simp
qed

lemma accepts_lower_literal:
  "map to_lower s = l \<Longrightarrow> map to_lower l = l \<Longrightarrow> accepts (literal l) s"
  by (rule accepts_literal) simp

lemma stream_type_accepts:
  assumes "map to_lower scheme \<in> set [''rtp'', ''rtmp'', ''rtcp'', ''rtsp'', ''udp'']"
    and "\<forall>c \<in> set rest. \<not> line_terminator c"
  shows "accepts stream_type_regex (scheme @ ''://'' @ rest)"
proof -
  from assms(1) consider
      (rtp) "map to_lower scheme = ''rtp''" | (rtmp) "map to_lower scheme = ''rtmp''"
    | (rtcp) "map to_lower scheme = ''rtcp''" | (rtsp) "map to_lower scheme = ''rtsp''"
    | (udp) "map to_lower scheme = ''udp''"
    by (simp only: set_simps insert_iff empty_iff) blast
  then have "accepts (Alt (literal ''rtp'') (Alt (literal ''rtmp'') (Alt (literal ''rtcp'')
            (Alt (literal ''rtsp'') (literal ''udp''))))) scheme"
  proof cases
    case rtp
    then show ?thesis
      by (intro accepts.a_left accepts_lower_literal) (simp_all add: to_lower_def)
  next
    case rtmp
    then show ?thesis
      by (intro accepts.a_right [of "Alt _ _"] accepts.a_left accepts_lower_literal)
         (simp_all add: to_lower_def)
  next
    case rtcp
    then have "accepts (literal ''rtcp'') scheme"
      by (intro accepts_lower_literal) (simp_all add: to_lower_def)
    then show ?thesis
      by (intro accepts.a_right [of "Alt _ _"] accepts.a_left)
  next
    case rtsp
    then have "accepts (literal ''rtsp'') scheme"
      by (intro accepts_lower_literal) (simp_all add: to_lower_def)
    then show ?thesis
      by (intro accepts.a_right [of "Alt _ _"] accepts.a_left)
  next
    case udp
    then have "accepts (literal ''udp'') scheme"
      by (intro accepts_lower_literal) (simp_all add: to_lower_def)
    then show ?thesis
      by (intro accepts.a_right)
  qed
  moreover have "accepts (literal ''://'') ''://''"
    by (rule accepts_literal) simp
  then have "accepts (Seq (literal ''://'') (Star AnyChar)) (''://'' @ rest)"
    by (rule accepts.a_seq) (simp add: accepts_any_star assms(2))
  ultimately show ?thesis
    unfolding stream_type_regex_def by (rule accepts.a_seq)
qed

lemma stream_ext_accepts:
  assumes "map to_lower scheme \<in> set [''http'', ''https'']"
    and "map to_lower ext \<in> set [''.m3u8'', ''.flv'']"
    and "\<forall>c \<in> set rest. \<not> line_terminator c"
  shows "accepts stream_ext_regex (scheme @ ''://'' @ rest @ ext)"
proof -
  from assms(1) have "map to_lower scheme = ''http'' \<or> map to_lower scheme = ''https''"
    by simp
  then have scheme: "accepts (Alt (literal ''http'') (literal ''https'')) scheme"
  proof
    assume "map to_lower scheme = ''http''"
    then show ?thesis
      by (intro accepts.a_left accepts_lower_literal) (simp_all add: to_lower_def)
  next
    assume "map to_lower scheme = ''https''"
    then show ?thesis
      by (intro accepts.a_right accepts_lower_literal) (simp_all add: to_lower_def)
  qed
  from assms(2) have "map to_lower ext = ''.m3u8'' \<or> map to_lower ext = ''.flv''"
    by simp
  then have ext: "accepts (Alt (Seq AnyChar (literal ''m3u8'')) (Seq AnyChar (literal ''flv''))) ext"
  proof
    assume e: "map to_lower ext = ''.m3u8''"
    then obtain c t where ct: "ext = c # t" "to_lower c = CHR ''.''" "map to_lower t = ''m3u8''"
      by (cases ext) auto
    from ct(2) have "\<not> line_terminator c"
      by (auto simp: line_terminator_def to_lower_def)
    then have "accepts AnyChar [c]" by (rule accepts.a_any)
    moreover from ct(3) have "accepts (literal ''m3u8'') t"
      by (intro accepts_lower_literal) (simp_all add: to_lower_def)
    ultimately have "accepts (Seq AnyChar (literal ''m3u8'')) ([c] @ t)"
      by (rule accepts.a_seq)
    with ct(1) show ?thesis by (simp add: accepts.a_left)
  next
    assume e: "map to_lower ext = ''.flv''"
    then obtain c t where ct: "ext = c # t" "to_lower c = CHR ''.''" "map to_lower t = ''flv''"
      by (cases ext) auto
    from ct(2) have "\<not> line_terminator c"
      by (auto simp: line_terminator_def to_lower_def)
    then have "accepts AnyChar [c]" by (rule accepts.a_any)
    moreover from ct(3) have "accepts (literal ''flv'') t"
      by (intro accepts_lower_literal) (simp_all add: to_lower_def)
    ultimately have "accepts (Seq AnyChar (literal ''flv'')) ([c] @ t)"
      by (rule accepts.a_seq)
    with ct(1) show ?thesis by (simp add: accepts.a_right)
  qed
  have "accepts (Star AnyChar) rest"
    by (simp add: accepts_any_star assms(3))
  then have "accepts (Seq (Star AnyChar)
      (Alt (Seq AnyChar (literal ''m3u8'')) (Seq AnyChar (literal ''flv'')))) (rest @ ext)"
    using ext by (rule accepts.a_seq)
  moreover have "accepts (literal ''://'') ''://''"
    by (rule accepts_literal) simp
  ultimately have "accepts (Seq (literal ''://'') (Seq (Star AnyChar)
      (Alt (Seq AnyChar (literal ''m3u8'')) (Seq AnyChar (literal ''flv''))))) (''://'' @ rest @ ext)"
    by (rule accepts.a_seq [rotated])
  with scheme show ?thesis
    unfolding stream_ext_regex_def by (rule accepts.a_seq)
qed

text \<open>
  C6. An identifier that consists of one of the schemes rtp, rtmp, rtcp, rtsp, udp, then
  \<^verbatim>\<open>://\<close> and any rest, or of http or https, \<^verbatim>\<open>://\<close>, any rest and the ending
  \<^verbatim>\<open>.m3u8\<close> or \<^verbatim>\<open>.flv\<close>, with letters of either case, is classified as a network
  stream and not as a camera, provided that the rest holds no line terminator (LF, CR),
  that the identifier does not match the camera pattern, and that GStreamer takes it for a
  valid URI, so that \<open>ParseUri\<close> returns it as it is.
\<close>

theorem classify_network_stream:
  assumes "(ident = scheme @ ''://'' @ rest
            \<and> map to_lower scheme \<in> set [''rtp'', ''rtmp'', ''rtcp'', ''rtsp'', ''udp''])
         \<or> (ident = scheme @ ''://'' @ rest @ ext
            \<and> map to_lower scheme \<in> set [''http'', ''https'']
            \<and> map to_lower ext \<in> set [''.m3u8'', ''.flv''])"
    and "\<forall>c \<in> set rest. \<not> line_terminator c"
    and "\<not> regex_match ident camera_path_regex"
    and "gst_uri_is_valid env ident"
  shows "is_stream (classify_source env ident (new_player w0 h0))
    \<and> \<not> is_camera (classify_source env ident (new_player w0 h0))
    \<and> uri (classify_source env ident (new_player w0 h0)) = ident"
proof -
  from assms(1) have "IsStreamUri ident"
  proof (elim disjE conjE)
    assume "ident = scheme @ ''://'' @ rest"
      and "map to_lower scheme \<in> set [''rtp'', ''rtmp'', ''rtcp'', ''rtsp'', ''udp'']"
    then have "accepts stream_type_regex ident"
      using assms(2) by (simp only: stream_type_accepts)
    then show ?thesis
      by (simp add: IsStreamUri_def accepts_regex_match)
  next
    assume "ident = scheme @ ''://'' @ rest @ ext"
      and "map to_lower scheme \<in> set [''http'', ''https'']"
      and "map to_lower ext \<in> set [''.m3u8'', ''.flv'']"
    then have "accepts stream_ext_regex ident"
      using assms(2) by (simp only: stream_ext_accepts)
    then show ?thesis
      by (simp add: IsStreamUri_def accepts_regex_match)
  qed
  with assms(3,4) show ?thesis
    by (simp add: classify_source_def ParseUri_def new_player_def Let_def)
qed

text \<open>
  The identifier \<^verbatim>\<open>rtsp://a\<close>, a line feed, \<^verbatim>\<open>b\<close> has the scheme rtsp and does not
  match the camera pattern, and it is not classified as a network stream: the dot of the
  pattern does not match the line feed.
\<close>

theorem classify_line_feed_counterexample:
  "gst_uri_is_valid sample_env (''rtsp://a'' @ [CHR 0x0A] @ ''b'')
   \<and> \<not> regex_match (''rtsp://a'' @ [CHR 0x0A] @ ''b'') camera_path_regex
   \<and> \<not> is_stream (classify_source sample_env (''rtsp://a'' @ [CHR 0x0A] @ ''b'') (new_player 0 0))"
  by (simp add: classify_source_def ParseUri_def new_player_def Let_def sample_env_def
      IsStreamUri_def regex_match_def camera_path_regex_def stream_type_regex_def
      stream_ext_regex_def to_lower_def line_terminator_def CheckInconsistency_def
      resolution_values_def)

theorem classify_network_stream_witness:
  "\<not> regex_match ''RTSP://camera.local/live?w=1000&h=3000&o=l'' camera_path_regex
   \<and> gst_uri_is_valid sample_env ''RTSP://camera.local/live?w=1000&h=3000&o=l''
   \<and> is_stream (classify_source sample_env ''RTSP://camera.local/live?w=1000&h=3000&o=l'' (new_player 0 0))
   \<and> \<not> regex_match ''https://host/live/index.M3U8'' camera_path_regex
   \<and> is_stream (classify_source sample_env ''https://host/live/index.M3U8'' (new_player 0 0))"
proof -
  have cam: "\<not> regex_match ''RTSP://camera.local/live?w=1000&h=3000&o=l'' camera_path_regex"
    "\<not> regex_match ''https://host/live/index.M3U8'' camera_path_regex"
    by (simp_all add: regex_match_def camera_path_regex_def to_lower_def)
  have valid: "gst_uri_is_valid sample_env ''RTSP://camera.local/live?w=1000&h=3000&o=l''"
    "gst_uri_is_valid sample_env ''https://host/live/index.M3U8''"
    by (simp_all add: sample_env_def)
  have "is_stream (classify_source sample_env ''RTSP://camera.local/live?w=1000&h=3000&o=l'' (new_player 0 0))"
    using classify_network_stream [of "''RTSP://camera.local/live?w=1000&h=3000&o=l''" "''RTSP''"
        "''camera.local/live?w=1000&h=3000&o=l''" "[]" sample_env 0 0] cam(1) valid(1)
    by (simp add: to_lower_def line_terminator_def)
  moreover have "is_stream (classify_source sample_env ''https://host/live/index.M3U8'' (new_player 0 0))"
    using classify_network_stream [of "''https://host/live/index.M3U8''" "''https''"
        "''host/live/index''" "''.M3U8''" sample_env 0 0] cam(2) valid(2)
    by (simp add: to_lower_def line_terminator_def)
  ultimately show ?thesis using cam valid by simp
qed

subsection \<open>Caps of a network stream\<close>























end
